theory Spec2Isabelle
  imports Complex_Main "HOL-Library.Word"
begin

section \<open>Values\<close>

text \<open>
  The index buffer holds \<^verbatim>\<open>unsigned short\<close> values: 16-bit words, on which
  \<open>a - 1\<close> wraps as \<^verbatim>\<open>a--\<close> does.

  A \<^verbatim>\<open>float\<close> coordinate is modelled by the real number it denotes, or \<open>NaN\<close>.
  Arithmetic on coordinates is exact real arithmetic: the rounding, overflow and
  underflow of single precision are not represented there. \<open>NaN\<close> is kept because
  \<^verbatim>\<open>glm::normalize\<close> produces it for the zero vector.
\<close>

type_synonym ushort = "16 word"

datatype float = Finite real | NaN

fun fadd :: "float \<Rightarrow> float \<Rightarrow> float" where
  "fadd (Finite a) (Finite b) = Finite (a + b)"
| "fadd _ _ = NaN"

fun fsub :: "float \<Rightarrow> float \<Rightarrow> float" where
  "fsub (Finite a) (Finite b) = Finite (a - b)"
| "fsub _ _ = NaN"

fun fmul :: "float \<Rightarrow> float \<Rightarrow> float" where
  "fmul (Finite a) (Finite b) = Finite (a * b)"
| "fmul _ _ = NaN"

datatype vec3 = vec3 (vx: float) (vy: float) (vz: float)

text \<open>\<^verbatim>\<open>glm::vec3 - glm::vec3\<close>, componentwise.\<close>

definition vec3_sub :: "vec3 \<Rightarrow> vec3 \<Rightarrow> vec3" where
  "vec3_sub a b = vec3 (fsub (vx a) (vx b)) (fsub (vy a) (vy b)) (fsub (vz a) (vz b))"

text \<open>\<^verbatim>\<open>glm::cross\<close> of glm 0.9.4 (the version the makefile names).\<close>

definition cross :: "vec3 \<Rightarrow> vec3 \<Rightarrow> vec3" where
  "cross a b = vec3
     (fsub (fmul (vy a) (vz b)) (fmul (vy b) (vz a)))
     (fsub (fmul (vz a) (vx b)) (fmul (vz b) (vx a)))
     (fsub (fmul (vx a) (vy b)) (fmul (vx b) (vy a)))"

text \<open>
  \<^verbatim>\<open>glm::normalize(v)\<close> is \<^verbatim>\<open>v * inversesqrt(sqr)\<close> with
  \<^verbatim>\<open>sqr = v.x * v.x + v.y * v.y + v.z * v.z\<close> and \<^verbatim>\<open>inversesqrt(s) = 1 / sqrt(s)\<close>.
  For the zero vector \<^verbatim>\<open>sqr\<close> is 0, the factor is infinite and every component is
  \<^verbatim>\<open>0 * inf\<close>, that is NaN.
\<close>

definition normalize :: "vec3 \<Rightarrow> vec3" where
  "normalize v =
     (case fadd (fadd (fmul (vx v) (vx v)) (fmul (vy v) (vy v))) (fmul (vz v) (vz v)) of
        Finite sqr \<Rightarrow>
          if 0 < sqr
          then vec3 (fmul (vx v) (Finite (1 / sqrt sqr)))
                    (fmul (vy v) (Finite (1 / sqrt sqr)))
                    (fmul (vz v) (Finite (1 / sqrt sqr)))
          else vec3 NaN NaN NaN
      | NaN \<Rightarrow> vec3 NaN NaN NaN)"

section \<open>Exceptions and containers\<close>

datatype exn = ShaderException string | out_of_range

datatype outcome = Returned | Threw exn

text \<open>\<^verbatim>\<open>std::vector::at\<close>: a checked read, and a checked write through the reference.\<close>

definition vector_at :: "'a list \<Rightarrow> nat \<Rightarrow> exn + 'a" where
  "vector_at xs n = (if n < length xs then Inr (xs ! n) else Inl out_of_range)"

definition vector_at_assign :: "'a list \<Rightarrow> nat \<Rightarrow> 'a \<Rightarrow> exn + 'a list" where
  "vector_at_assign xs n v = (if n < length xs then Inr (xs[n := v]) else Inl out_of_range)"

text \<open>\<^verbatim>\<open>std::vector::resize(n, v)\<close>; \<^verbatim>\<open>resize(0)\<close> empties the vector.\<close>

definition resize :: "nat \<Rightarrow> 'a \<Rightarrow> 'a list \<Rightarrow> 'a list" where
  "resize n v xs = take n xs @ replicate (n - length xs) v"

section \<open>Formatted input from a string stream\<close>

text \<open>
  An \<^verbatim>\<open>istringstream\<close> is the text not yet read and two state bits. Extraction with
  \<^verbatim>\<open>>>\<close> follows the C++11 library ([istream.formatted.arithmetic],
  [facet.num.get.virtuals]) as libstdc++ implements it in the C locale:
  the sentry fails, leaving the variable as it was, when a state bit is already set or
  only white space is left; a field that is no number stores 0 and sets failbit; a
  field too large for the type stores the largest value and sets failbit; reaching
  the end of the text while reading sets eofbit.
\<close>

record istringstream =
  rest :: string
  failbit :: bool
  eofbit :: bool

definition istringstream_of :: "string \<Rightarrow> istringstream" where
  "istringstream_of s = \<lparr>rest = s, failbit = False, eofbit = False\<rparr>"

definition isspace :: "char \<Rightarrow> bool" where
  "isspace c = (c = CHR 0x20 \<or> c = CHR 0x09 \<or> c = CHR 0x0A \<or> c = CHR 0x0B
                \<or> c = CHR 0x0C \<or> c = CHR 0x0D)"

definition isdigit :: "char \<Rightarrow> bool" where
  "isdigit c = (c \<in> set ''0123456789'')"

definition digit_val :: "char \<Rightarrow> nat" where
  "digit_val c = of_char c - 48"

fun digits_val :: "nat \<Rightarrow> string \<Rightarrow> nat" where
  "digits_val acc [] = acc"
| "digits_val acc (c # cs) = digits_val (acc * 10 + digit_val c) cs"

definition sentry :: "istringstream \<Rightarrow> istringstream \<times> bool" where
  "sentry s =
     (if failbit s \<or> eofbit s then (s\<lparr>failbit := True\<rparr>, False)
      else let r = dropWhile isspace (rest s)
           in if r = [] then (s\<lparr>rest := [], failbit := True, eofbit := True\<rparr>, False)
              else (s\<lparr>rest := r\<rparr>, True))"

definition is_sign :: "char \<Rightarrow> bool" where
  "is_sign c = (c = CHR ''-'' \<or> c = CHR ''+'')"

text \<open>\<^verbatim>\<open>s >> a\<close> for \<^verbatim>\<open>unsigned short a\<close>; the second argument is the value \<^verbatim>\<open>a\<close> holds before.\<close>

definition extract_ushort :: "istringstream \<Rightarrow> ushort \<Rightarrow> istringstream \<times> ushort" where
  "extract_ushort s0 old =
     (case sentry s0 of
        (s, False) \<Rightarrow> (s, old)
      | (s, True) \<Rightarrow>
          let negative = (take 1 (rest s) = ''-'');
              body = (if is_sign (hd (rest s)) then tl (rest s) else rest s);
              ds = takeWhile isdigit body;
              r = dropWhile isdigit body;
              n = digits_val 0 ds;
              s = s\<lparr>rest := r, eofbit := (r = [])\<rparr>
          in if ds = [] then (s\<lparr>failbit := True\<rparr>, 0)
             else if 65535 < n then (s\<lparr>failbit := True\<rparr>, 65535)
             else (s, if negative then - of_nat n else of_nat n))"

text \<open>
  \<^verbatim>\<open>s >> x\<close> for \<^verbatim>\<open>float x\<close>: the field is an optional sign, digits with an optional
  decimal point, and an optional exponent; it is a number when the mantissa has a digit
  and an exponent mark is followed by a digit.
\<close>

definition float_field_val :: "bool \<Rightarrow> string \<Rightarrow> string \<Rightarrow> bool \<Rightarrow> string \<Rightarrow> real" where
  "float_field_val negative ip fp eneg ep =
     (let m = real (digits_val 0 (ip @ fp)) / 10 ^ length fp;
          v = (if eneg then m / 10 ^ digits_val 0 ep else m * 10 ^ digits_val 0 ep)
      in if negative then - v else v)"

definition extract_float :: "istringstream \<Rightarrow> float \<Rightarrow> istringstream \<times> float" where
  "extract_float s0 old =
     (case sentry s0 of
        (s, False) \<Rightarrow> (s, old)
      | (s, True) \<Rightarrow>
          let negative = (take 1 (rest s) = ''-'');
              body = (if is_sign (hd (rest s)) then tl (rest s) else rest s);
              ip = takeWhile isdigit body;
              r1 = dropWhile isdigit body;
              has_point = (take 1 r1 = ''.'');
              fp = (if has_point then takeWhile isdigit (tl r1) else []);
              r2 = (if has_point then dropWhile isdigit (tl r1) else r1);
              has_exp = (ip @ fp \<noteq> [] \<and> (take 1 r2 = ''e'' \<or> take 1 r2 = ''E''));
              r3 = (if has_exp then tl r2 else r2);
              eneg = (has_exp \<and> take 1 r3 = ''-'');
              r4 = (if has_exp \<and> r3 \<noteq> [] \<and> is_sign (hd r3) then tl r3 else r3);
              ep = (if has_exp then takeWhile isdigit r4 else []);
              r = (if has_exp then dropWhile isdigit r4 else r4);
              s = s\<lparr>rest := r, eofbit := (r = [])\<rparr>
          in if ip @ fp = [] \<or> (has_exp \<and> ep = []) then (s\<lparr>failbit := True\<rparr>, Finite 0)
             else (s, Finite (float_field_val negative ip fp eneg ep)))"

section \<open>The mesh\<close>

record Mesh =
  vertices :: "float list"
  normals :: "float list"
  indices :: "ushort list"
  glm_vertices :: "vec3 list"
  glm_normals :: "vec3 list"

text \<open>The default constructor \<^verbatim>\<open>Mesh() { }\<close>: five empty vectors.\<close>

definition Mesh_empty :: Mesh where
  "Mesh_empty = \<lparr>vertices = [], normals = [], indices = [], glm_vertices = [], glm_normals = []\<rparr>"

subsection \<open>Reading the lines\<close>

text \<open>
  \<^verbatim>\<open>getline(in, line)\<close> on the text not yet read: the line, the text after its
  newline, and whether the end of the file was reached instead of a newline
  (\<^verbatim>\<open>in.eof()\<close> afterwards).
\<close>

fun getline :: "string \<Rightarrow> string \<times> string \<times> bool" where
  "getline [] = ([], [], True)"
| "getline (c # cs) =
     (if c = CHR 0x0A then ([], cs, False)
      else case getline cs of (l, r, e) \<Rightarrow> (c # l, r, e))"

text \<open>
  The body of the reading loop for one line. \<^verbatim>\<open>glm::vec3 v;\<close> starts as the zero vector
  (glm 0.9.4); \<^verbatim>\<open>unsigned short a, b, c;\<close> start with indeterminate values, which the
  model takes as its first argument.
\<close>

definition process_line :: "ushort \<times> ushort \<times> ushort \<Rightarrow> string \<Rightarrow> Mesh \<Rightarrow> Mesh" where
  "process_line u line m =
     (if take 2 line = ''v '' then
        (let s = istringstream_of (drop 2 line);
             (s, x) = extract_float s (Finite 0);
             (s, y) = extract_float s (Finite 0);
             (s, z) = extract_float s (Finite 0)
         in m\<lparr>glm_vertices := glm_vertices m @ [vec3 x y z]\<rparr>)
      else if take 2 line = ''f '' then
        (let s = istringstream_of (drop 2 line);
             (s, a) = extract_ushort s (fst u);
             (s, b) = extract_ushort s (fst (snd u));
             (s, c) = extract_ushort s (snd (snd u));
             a = a - 1; b = b - 1; c = c - 1
         in m\<lparr>indices := indices m @ [a, b, c]\<rparr>)
      else m)"

lemma getline_shorter: "getline s = (l, r, False) \<Longrightarrow> length r < length s"
  by (induction s arbitrary: l) (auto split: if_splits prod.splits)

text \<open>
  \<^verbatim>\<open>while (!in.eof()) { getline(in, line); ... }\<close>; \<open>k\<close> counts the lines read so far
  and selects the indeterminate values of that pass.
\<close>

function read_loop ::
  "(nat \<Rightarrow> ushort \<times> ushort \<times> ushort) \<Rightarrow> nat \<Rightarrow> string \<Rightarrow> Mesh \<Rightarrow> Mesh" where
  "read_loop u k inp m =
     (case getline inp of
        (line, r, e) \<Rightarrow>
          if e then process_line (u k) line m
          else read_loop u (Suc k) r (process_line (u k) line m))"
  by pat_completeness auto
termination
  by (relation "measure (\<lambda>(u, k, inp, m). length inp)") (auto dest: getline_shorter [OF sym])

declare read_loop.simps [simp del]

subsection \<open>Deriving the normals\<close>

text \<open>
  The body of the loop over \<^verbatim>\<open>indices\<close> at counter \<open>i\<close>. The counter is an
  \<^verbatim>\<open>unsigned int\<close>, so \<open>i + 1\<close> and \<open>i + 2\<close> are taken modulo \<open>2 ^ 32\<close>.
  The result is the mesh as the body leaves it and whether it threw.
\<close>

definition triangle_step :: "nat \<Rightarrow> Mesh \<Rightarrow> Mesh \<times> outcome" where
  "triangle_step i m =
     (case vector_at (indices m) i of Inl e \<Rightarrow> (m, Threw e) | Inr ia \<Rightarrow>
      case vector_at (indices m) ((i + 1) mod 2 ^ 32) of Inl e \<Rightarrow> (m, Threw e) | Inr ib \<Rightarrow>
      case vector_at (indices m) ((i + 2) mod 2 ^ 32) of Inl e \<Rightarrow> (m, Threw e) | Inr ic \<Rightarrow>
      case vector_at (glm_vertices m) (unat ib) of Inl e \<Rightarrow> (m, Threw e) | Inr pb \<Rightarrow>
      case vector_at (glm_vertices m) (unat ia) of Inl e \<Rightarrow> (m, Threw e) | Inr pa \<Rightarrow>
      case vector_at (glm_vertices m) (unat ic) of Inl e \<Rightarrow> (m, Threw e) | Inr pc \<Rightarrow>
        (let normal = normalize (cross (vec3_sub pb pa) (vec3_sub pc pa)) in
         case vector_at_assign (glm_normals m) (unat ic) normal of
           Inl e \<Rightarrow> (m, Threw e)
         | Inr n1 \<Rightarrow>
         case vector_at_assign n1 (unat ib) normal of
           Inl e \<Rightarrow> (m\<lparr>glm_normals := n1\<rparr>, Threw e)
         | Inr n2 \<Rightarrow>
         case vector_at_assign n2 (unat ia) normal of
           Inl e \<Rightarrow> (m\<lparr>glm_normals := n2\<rparr>, Threw e)
         | Inr n3 \<Rightarrow> (m\<lparr>glm_normals := n3\<rparr>, Returned)))"

text \<open>
  \<^verbatim>\<open>for (unsigned int i = 0; i < indices.size(); i += 3)\<close>. With \<open>2 ^ 32\<close> or more
  indices the counter wraps before it reaches the size and the loop need not end:
  \<open>None\<close> is the loop that never returns.
\<close>

partial_function (option) normals_loop :: "nat \<Rightarrow> Mesh \<Rightarrow> (Mesh \<times> outcome) option" where
  "normals_loop i m =
     (if i < length (indices m) then
        (let r = triangle_step i m
         in if snd r = Returned then normals_loop ((i + 3) mod 2 ^ 32) (fst r)
            else Some r)
      else Some (m, Returned))"

declare normals_loop.simps [code]

subsection \<open>Copying to the flat buffers\<close>

fun push_vec3s :: "vec3 list \<Rightarrow> float list \<Rightarrow> float list" where
  "push_vec3s [] out = out"
| "push_vec3s (v # vs) out = push_vec3s vs (out @ [vx v, vy v, vz v])"

subsection \<open>Loading\<close>

text \<open>
  The file system maps a path to the text of the file, or to \<open>None\<close> when the file
  cannot be opened. A file that opens is read to its end (a read error in the middle
  of the stream is not modelled). The mesh is changed in place, so the result holds the
  mesh as the call leaves it, also when it throws.
\<close>

type_synonym filesystem = "string \<Rightarrow> string option"

definition loadFromObjFile ::
  "filesystem \<Rightarrow> (nat \<Rightarrow> ushort \<times> ushort \<times> ushort) \<Rightarrow> string \<Rightarrow> Mesh
     \<Rightarrow> (Mesh \<times> outcome) option" where
  "loadFromObjFile fs u objFileName m0 =
     (let m = m0\<lparr>vertices := resize 0 (Finite 0) (vertices m0),
                 normals := resize 0 (Finite 0) (normals m0),
                 indices := resize 0 0 (indices m0),
                 glm_vertices := resize 0 (vec3 (Finite 0) (Finite 0) (Finite 0)) (glm_vertices m0),
                 glm_normals := resize 0 (vec3 (Finite 0) (Finite 0) (Finite 0)) (glm_normals m0)\<rparr>
      in case fs objFileName of
           None \<Rightarrow>
             Some (m, Threw (ShaderException
                               (''Unable to open .obj file: '' @ objFileName @ [CHR 0x0A])))
         | Some src \<Rightarrow>
             (let m = read_loop u 0 src m;
                  m = m\<lparr>glm_normals :=
                          resize (length (glm_vertices m)) (vec3 (Finite 0) (Finite 0) (Finite 0))
                            (glm_normals m)\<rparr>
              in case normals_loop 0 m of
                   None \<Rightarrow> None
                 | Some (m, Threw e) \<Rightarrow> Some (m, Threw e)
                 | Some (m, Returned) \<Rightarrow>
                     (let m = m\<lparr>vertices := push_vec3s (glm_vertices m) (vertices m)\<rparr>;
                          m = m\<lparr>normals := push_vec3s (glm_normals m) (normals m)\<rparr>;
                          m = m\<lparr>glm_vertices :=
                                  resize 0 (vec3 (Finite 0) (Finite 0) (Finite 0)) (glm_vertices m),
                                glm_normals :=
                                  resize 0 (vec3 (Finite 0) (Finite 0) (Finite 0)) (glm_normals m)\<rparr>
                      in Some (m, Returned))))"

text \<open>\<^verbatim>\<open>Mesh::fromObjFile\<close> and the constructor \<^verbatim>\<open>Mesh(const char*)\<close>.\<close>

definition fromObjFile ::
  "filesystem \<Rightarrow> (nat \<Rightarrow> ushort \<times> ushort \<times> ushort) \<Rightarrow> string \<Rightarrow> Mesh
     \<Rightarrow> (Mesh \<times> outcome) option" where
  "fromObjFile fs u objFileName m = loadFromObjFile fs u objFileName m"

definition Mesh_of_file ::
  "filesystem \<Rightarrow> (nat \<Rightarrow> ushort \<times> ushort \<times> ushort) \<Rightarrow> string \<Rightarrow> (Mesh \<times> outcome) option" where
  "Mesh_of_file fs u objFileName = loadFromObjFile fs u objFileName Mesh_empty"

section \<open>Accessors\<close>

text \<open>
  \<^verbatim>\<open>sizeof(float)\<close> is 4 and \<^verbatim>\<open>sizeof(unsigned short)\<close> is 2. A \<^verbatim>\<open>size_t\<close> is a
  natural number here: a vector never holds so many elements that its size in bytes
  wraps.
\<close>

definition getNumVertexBytes :: "Mesh \<Rightarrow> nat" where
  "getNumVertexBytes m = length (vertices m) * 4"

definition getNumNormalBytes :: "Mesh \<Rightarrow> nat" where
  "getNumNormalBytes m = length (normals m) * 4"

definition getNumIndexBytes :: "Mesh \<Rightarrow> nat" where
  "getNumIndexBytes m = length (indices m) * 2"

text \<open>
  \<^verbatim>\<open>(size_t)(vertices.size() / 3.0f)\<close> converts the size to \<^verbatim>\<open>float\<close>, divides in
  single precision and truncates. The element count depends on the rounding of these
  two steps, so it is modelled here: IEEE 754 binary32, a significand of 24 bits,
  round to nearest with ties to even. (Sizes are far below the overflow threshold
  \<open>2 ^ 128\<close>.)
\<close>

definition rne :: "real \<Rightarrow> int" where
  "rne x = (let f = \<lfloor>x\<rfloor>; d = x - of_int f
            in if d < 1 / 2 then f else if 1 / 2 < d then f + 1
               else if even f then f else f + 1)"

fun bit_length :: "nat \<Rightarrow> nat" where
  "bit_length n = (if n = 0 then 0 else Suc (bit_length (n div 2)))"

function neg_exponent :: "nat \<Rightarrow> real \<Rightarrow> nat" where
  "neg_exponent k x = (if k < 126 \<and> x * 2 ^ k < 1 then neg_exponent (Suc k) x else k)"
  by pat_completeness auto
termination
  by (relation "measure (\<lambda>(k, x). 126 - k)") auto

declare neg_exponent.simps [simp del]

text \<open>The binary32 value nearest to a non-negative real \<open>x\<close>.\<close>

definition float_round_mag :: "real \<Rightarrow> real" where
  "float_round_mag x =
     (if x < 1 then
        (let k = neg_exponent 0 x in of_int (rne (x * 2 ^ (k + 23))) / 2 ^ (k + 23))
      else
        (let e = bit_length (nat \<lfloor>x\<rfloor>) - 1
         in if e \<le> 23 then of_int (rne (x * 2 ^ (23 - e))) / 2 ^ (23 - e)
            else of_int (rne (x / 2 ^ (e - 23))) * 2 ^ (e - 23)))"

definition float_round :: "real \<Rightarrow> real" where
  "float_round x = (if x < 0 then - float_round_mag (- x) else float_round_mag x)"

definition float_of_size :: "nat \<Rightarrow> float" where
  "float_of_size n = Finite (float_round (real n))"

text \<open>Single-precision division by a non-zero divisor.\<close>

fun fdiv :: "float \<Rightarrow> float \<Rightarrow> float" where
  "fdiv (Finite a) (Finite b) = (if b = 0 then NaN else Finite (float_round (a / b)))"
| "fdiv _ _ = NaN"

text \<open>The cast \<^verbatim>\<open>(size_t)\<close> of a non-negative \<^verbatim>\<open>float\<close> truncates.\<close>

fun size_of_float :: "float \<Rightarrow> nat" where
  "size_of_float (Finite a) = nat \<lfloor>a\<rfloor>"
| "size_of_float NaN = 0"

definition getNumVertices :: "Mesh \<Rightarrow> nat" where
  "getNumVertices m = size_of_float (fdiv (float_of_size (length (vertices m))) (Finite 3))"

definition getNumNormals :: "Mesh \<Rightarrow> nat" where
  "getNumNormals m = size_of_float (fdiv (float_of_size (length (normals m))) (Finite 3))"

definition getNumIndices :: "Mesh \<Rightarrow> nat" where
  "getNumIndices m = length (indices m)"

section \<open>The terms of the specification\<close>

text \<open>
  The specification speaks of the lines of the file, of the positions and normals as
  sequences of 3D vectors, and of the normal of a triangle. These are read off the
  program's data as follows.
\<close>



text \<open>A flat buffer of floats read as vectors, three floats each.\<close>

fun vec3s_of :: "float list \<Rightarrow> vec3 list" where
  "vec3s_of (x # y # z # r) = vec3 x y z # vec3s_of r"
| "vec3s_of _ = []"

text \<open>
  The normal of the triangle \<open>(a, b, c)\<close>: the normalized cross product of the edge
  vectors \<open>posB - posA\<close> and \<open>posC - posA\<close>.
\<close>

definition face_normal :: "vec3 list \<Rightarrow> ushort \<Rightarrow> ushort \<Rightarrow> ushort \<Rightarrow> vec3" where
  "face_normal pos a b c =
     normalize (cross (vec3_sub (pos ! unat b) (pos ! unat a))
                      (vec3_sub (pos ! unat c) (pos ! unat a)))"

text \<open>
  The normal derivation in the specification's words: for each index triple in turn,
  the triangle's normal is assigned to the slots \<open>a\<close>, \<open>b\<close> and \<open>c\<close> of the accumulator.
\<close>

fun derive_normals :: "vec3 list \<Rightarrow> ushort list \<Rightarrow> vec3 list \<Rightarrow> vec3 list" where
  "derive_normals pos (a # b # c # ts) acc =
     derive_normals pos ts
       (acc[unat a := face_normal pos a b c,
            unat b := face_normal pos a b c,
            unat c := face_normal pos a b c])"
| "derive_normals pos _ acc = acc"

text \<open>
  The mesh when the normals loop starts: the file has been read into a freshly reset
  mesh and \<open>glm_normals\<close> holds one zero vector for each position.
\<close>

definition parsed :: "(nat \<Rightarrow> ushort \<times> ushort \<times> ushort) \<Rightarrow> string \<Rightarrow> Mesh" where
  "parsed u src = (read_loop u 0 src Mesh_empty)
      \<lparr>glm_normals := replicate (length (glm_vertices (read_loop u 0 src Mesh_empty)))
                        (vec3 (Finite 0) (Finite 0) (Finite 0))\<rparr>"

text \<open>What the normal derivation leaves as it was: everything but the values in \<open>glm_normals\<close>.\<close>

definition frame :: "Mesh \<Rightarrow> Mesh \<Rightarrow> bool" where
  "frame m m' \<longleftrightarrow> vertices m' = vertices m \<and> normals m' = normals m \<and> indices m' = indices m
      \<and> glm_vertices m' = glm_vertices m \<and> length (glm_normals m') = length (glm_normals m)"

section \<open>Example inputs\<close>

text \<open>
  A file system with one readable file at every path, one with no readable file, and
  indeterminate values that happen to be zero; the one-triangle file of the
  specification and the mesh it loads to.
\<close>

definition only_file :: "string \<Rightarrow> filesystem" where
  "only_file src p = Some src"

definition no_files :: filesystem where
  "no_files p = None"

definition zeros :: "nat \<Rightarrow> ushort \<times> ushort \<times> ushort" where
  "zeros k = (0, 0, 0)"

definition triangle_obj :: string where
  "triangle_obj = ''v 0 0 0\<newline>v 1 0 0\<newline>v 0 1 0\<newline>f 1 2 3\<newline>''"

definition triangle_mesh :: Mesh where
  "triangle_mesh =
     \<lparr>vertices = [Finite 0, Finite 0, Finite 0, Finite 1, Finite 0, Finite 0,
                  Finite 0, Finite 1, Finite 0],
      normals = [Finite 0, Finite 0, Finite 1, Finite 0, Finite 0, Finite 1,
                 Finite 0, Finite 0, Finite 1],
      indices = [0, 1, 2], glm_vertices = [], glm_normals = []\<rparr>"

text \<open>Two triangles that share the vertices 1 and 3 of the file (indices 0 and 2).\<close>

definition shared_obj :: string where
  "shared_obj = ''v 0 0 0\<newline>v 1 0 0\<newline>v 0 1 0\<newline>v 0 0 1\<newline>f 1 2 3\<newline>f 1 3 4\<newline>''"

definition shared_mesh :: Mesh where
  "shared_mesh =
     \<lparr>vertices = [Finite 0, Finite 0, Finite 0, Finite 1, Finite 0, Finite 0,
                  Finite 0, Finite 1, Finite 0, Finite 0, Finite 0, Finite 1],
      normals = [Finite 1, Finite 0, Finite 0, Finite 0, Finite 0, Finite 1,
                 Finite 1, Finite 0, Finite 0, Finite 1, Finite 0, Finite 0],
      indices = [0, 1, 2, 0, 2, 3], glm_vertices = [], glm_normals = []\<rparr>"

text \<open>
  Two files with a line that does not parse: a face line whose tokens are no numbers,
  and a vertex line whose second token is no number; and the meshes they leave.
\<close>

definition bad_face_obj :: string where
  "bad_face_obj = ''v 0 0 0\<newline>f x y z''"

definition bad_face_mesh :: Mesh where
  "bad_face_mesh =
     \<lparr>vertices = [], normals = [], indices = [65535, 65535, 65535],
      glm_vertices = [vec3 (Finite 0) (Finite 0) (Finite 0)],
      glm_normals = [vec3 (Finite 0) (Finite 0) (Finite 0)]\<rparr>"



section \<open>The body of the normals loop\<close>

lemma triangle_step_frame: "triangle_step i m = (m', out) \<Longrightarrow> frame m m'"
  unfolding triangle_step_def vector_at_def vector_at_assign_def Let_def frame_def
  by (auto split: if_splits)

lemma triangle_step_Threw: "triangle_step i m = (m', Threw e) \<Longrightarrow> e = out_of_range"
  unfolding triangle_step_def vector_at_def vector_at_assign_def Let_def
  by (auto split: if_splits)

lemma triangle_step_Returned:
  assumes "triangle_step i m = (m', Returned)"
  shows "i < length (indices m)" and "(i + 1) mod 2 ^ 32 < length (indices m)"
       and "(i + 2) mod 2 ^ 32 < length (indices m)"
       and "unat (indices m ! i) < length (glm_vertices m)"
       and "unat (indices m ! ((i + 1) mod 2 ^ 32)) < length (glm_vertices m)"
       and "unat (indices m ! ((i + 2) mod 2 ^ 32)) < length (glm_vertices m)"
       and "m' = m\<lparr>glm_normals := (glm_normals m)
            [unat (indices m ! ((i + 2) mod 2 ^ 32)) := face_normal (glm_vertices m) (indices m ! i) (indices m ! ((i + 1) mod 2 ^ 32)) (indices m ! ((i + 2) mod 2 ^ 32)),
             unat (indices m ! ((i + 1) mod 2 ^ 32)) := face_normal (glm_vertices m) (indices m ! i) (indices m ! ((i + 1) mod 2 ^ 32)) (indices m ! ((i + 2) mod 2 ^ 32)),
             unat (indices m ! i) := face_normal (glm_vertices m) (indices m ! i) (indices m ! ((i + 1) mod 2 ^ 32)) (indices m ! ((i + 2) mod 2 ^ 32))]\<rparr>"
  using assms
  unfolding triangle_step_def vector_at_def vector_at_assign_def Let_def face_normal_def
  by (auto split: if_splits)

section \<open>The normals loop\<close>

text \<open>
  The loop may not return, so its properties are proved by the induction rule that
  comes with the definition: each holds of every result the loop does return.
\<close>

lemma frame_refl: "frame m m" by (simp add: frame_def)

lemma normals_loop_frame:
  assumes "normals_loop i m = Some y"
  shows "frame m (fst y) \<and> (\<forall>e. snd y = Threw e \<longrightarrow> e = out_of_range \<and> indices m \<noteq> [])"
proof (rule normals_loop.raw_induct
    [where P = "\<lambda>i m y. frame m (fst y) \<and> (\<forall>e. snd y = Threw e \<longrightarrow> e = out_of_range \<and> indices m \<noteq> [])",
     OF _ assms])
  fix loop :: "nat \<Rightarrow> Mesh \<Rightarrow> (Mesh \<times> outcome) option" and i m y
  assume IH: "\<And>i m y. loop i m = Some y \<Longrightarrow>
      frame m (fst y) \<and> (\<forall>e. snd y = Threw e \<longrightarrow> e = out_of_range \<and> indices m \<noteq> [])"
    and eq: "(if i < length (indices m)
      then let r = triangle_step i m
           in if snd r = Returned then loop ((i + 3) mod 2 ^ 32) (fst r) else Some r
      else Some (m, Returned)) = Some y"
  show "frame m (fst y) \<and> (\<forall>e. snd y = Threw e \<longrightarrow> e = out_of_range \<and> indices m \<noteq> [])"
  proof (cases "i < length (indices m)")
    case False
    with eq show ?thesis by (auto simp: frame_refl)
  next
    case True
    obtain m1 o1 where st: "triangle_step i m = (m1, o1)" by (cases "triangle_step i m")
    have f1: "frame m m1" using st by (rule triangle_step_frame)
    show ?thesis
    proof (cases o1)
      case Returned
      with eq True st have "loop ((i + 3) mod 2 ^ 32) m1 = Some y" by (simp add: Let_def)
      from IH[OF this] f1 True show ?thesis by (auto simp: frame_def)
    next
      case (Threw e)
      with eq True st have "y = (m1, Threw e)" by (simp add: Let_def)
      moreover have "e = out_of_range" using st Threw triangle_step_Threw by blast
      ultimately show ?thesis using f1 True by auto
    qed
  qed
qed

lemma normals_loop_wrap:
  assumes "normals_loop i m = Some y"
  shows "i < 2 ^ 32 \<longrightarrow> 2 ^ 32 \<le> length (indices m) \<longrightarrow> snd y \<noteq> Returned"
proof (rule normals_loop.raw_induct
    [where P = "\<lambda>i m y. i < 2 ^ 32 \<longrightarrow> 2 ^ 32 \<le> length (indices m) \<longrightarrow> snd y \<noteq> Returned",
     OF _ assms])
  fix loop :: "nat \<Rightarrow> Mesh \<Rightarrow> (Mesh \<times> outcome) option" and i m y
  assume IH: "\<And>i m y. loop i m = Some y \<Longrightarrow>
      i < 2 ^ 32 \<longrightarrow> 2 ^ 32 \<le> length (indices m) \<longrightarrow> snd y \<noteq> Returned"
    and eq: "(if i < length (indices m)
      then let r = triangle_step i m
           in if snd r = Returned then loop ((i + 3) mod 2 ^ 32) (fst r) else Some r
      else Some (m, Returned)) = Some y"
  show "i < 2 ^ 32 \<longrightarrow> 2 ^ 32 \<le> length (indices m) \<longrightarrow> snd y \<noteq> Returned"
  proof (intro impI)
    assume a: "i < 2 ^ 32" "2 ^ 32 \<le> length (indices m)"
    then have lt: "i < length (indices m)" by simp
    obtain m1 o1 where st: "triangle_step i m = (m1, o1)" by (cases "triangle_step i m")
    have f1: "frame m m1" using st by (rule triangle_step_frame)
    show "snd y \<noteq> Returned"
    proof (cases o1)
      case Returned
      with eq lt st have "loop ((i + 3) mod 2 ^ 32) m1 = Some y" by (simp add: Let_def)
      moreover have "(i + 3) mod 2 ^ 32 < (2::nat) ^ 32" by simp
      moreover have "2 ^ 32 \<le> length (indices m1)" using f1 a by (simp add: frame_def)
      ultimately show ?thesis using IH by blast
    next
      case (Threw e)
      with eq lt st have "y = (m1, Threw e)" by (simp add: Let_def)
      then show ?thesis by simp
    qed
  qed
qed

lemma update2_swap: "ys[i := v, j := v] = ys[j := v, i := (v::'a)]"
  by (cases "i = j") (simp_all add: list_update_swap)

lemma update3_swap: "xs[c := v, b := v, a := v] = xs[a := v, b := v, c := (v::'a)]"
proof -
  have "xs[c := v, b := v, a := v] = xs[c := v, a := v, b := v]"
    by (rule update2_swap)
  also have "\<dots> = xs[a := v, c := v, b := v]"
    by (simp only: update2_swap [of xs c v a])
  also have "\<dots> = xs[a := v, b := v, c := v]"
    by (rule update2_swap)
  finally show ?thesis .
qed

lemma drop3:
  assumes "i + 2 < length xs"
  shows "drop i xs = xs ! i # xs ! (i + 1) # xs ! (i + 2) # drop (i + 3) xs"
proof -
  have e: "i + 1 = Suc i" "i + 2 = Suc (Suc i)" "i + 3 = Suc (Suc (Suc i))" by simp_all
  have a: "i < length xs" "Suc i < length xs" "Suc (Suc i) < length xs" using assms by simp_all
  show ?thesis
    unfolding e
    using Cons_nth_drop_Suc[OF a(1)] Cons_nth_drop_Suc[OF a(2)] Cons_nth_drop_Suc[OF a(3)]
    by metis
qed

lemma normals_loop_spec:
  assumes "normals_loop i m = Some y"
  shows "length (indices m) < 2 ^ 32 \<longrightarrow> snd y = Returned \<longrightarrow>
     fst y = m\<lparr>glm_normals := derive_normals (glm_vertices m) (drop i (indices m)) (glm_normals m)\<rparr>
     \<and> (\<forall>k. i \<le> k \<and> k < length (indices m) \<longrightarrow> unat (indices m ! k) < length (glm_vertices m))
     \<and> (i \<le> length (indices m) \<longrightarrow> 3 dvd (length (indices m) - i))"
proof (rule normals_loop.raw_induct
    [where P = "\<lambda>i m y. length (indices m) < 2 ^ 32 \<longrightarrow> snd y = Returned \<longrightarrow>
     fst y = m\<lparr>glm_normals := derive_normals (glm_vertices m) (drop i (indices m)) (glm_normals m)\<rparr>
     \<and> (\<forall>k. i \<le> k \<and> k < length (indices m) \<longrightarrow> unat (indices m ! k) < length (glm_vertices m))
     \<and> (i \<le> length (indices m) \<longrightarrow> 3 dvd (length (indices m) - i))",
     OF _ assms])
  fix loop :: "nat \<Rightarrow> Mesh \<Rightarrow> (Mesh \<times> outcome) option" and i m y
  assume IH: "\<And>i m y. loop i m = Some y \<Longrightarrow>
      length (indices m) < 2 ^ 32 \<longrightarrow> snd y = Returned \<longrightarrow>
     fst y = m\<lparr>glm_normals := derive_normals (glm_vertices m) (drop i (indices m)) (glm_normals m)\<rparr>
     \<and> (\<forall>k. i \<le> k \<and> k < length (indices m) \<longrightarrow> unat (indices m ! k) < length (glm_vertices m))
     \<and> (i \<le> length (indices m) \<longrightarrow> 3 dvd (length (indices m) - i))"
    and eq: "(if i < length (indices m)
      then let r = triangle_step i m
           in if snd r = Returned then loop ((i + 3) mod 2 ^ 32) (fst r) else Some r
      else Some (m, Returned)) = Some y"
  show "length (indices m) < 2 ^ 32 \<longrightarrow> snd y = Returned \<longrightarrow>
     fst y = m\<lparr>glm_normals := derive_normals (glm_vertices m) (drop i (indices m)) (glm_normals m)\<rparr>
     \<and> (\<forall>k. i \<le> k \<and> k < length (indices m) \<longrightarrow> unat (indices m ! k) < length (glm_vertices m))
     \<and> (i \<le> length (indices m) \<longrightarrow> 3 dvd (length (indices m) - i))"
  proof (intro impI)
    assume len: "length (indices m) < 2 ^ 32" and ret: "snd y = Returned"
    show "fst y = m\<lparr>glm_normals := derive_normals (glm_vertices m) (drop i (indices m)) (glm_normals m)\<rparr>
     \<and> (\<forall>k. i \<le> k \<and> k < length (indices m) \<longrightarrow> unat (indices m ! k) < length (glm_vertices m))
     \<and> (i \<le> length (indices m) \<longrightarrow> 3 dvd (length (indices m) - i))"
    proof (cases "i < length (indices m)")
      case False
      with eq have "y = (m, Returned)" by simp
      with False show ?thesis by simp
    next
      case True
      obtain m1 o1 where st: "triangle_step i m = (m1, o1)" by (cases "triangle_step i m")
      have f1: "frame m m1" using st by (rule triangle_step_frame)
      have o1: "o1 = Returned"
      proof (rule ccontr)
        assume "o1 \<noteq> Returned"
        with eq True st have "y = (m1, o1)" by (simp add: Let_def)
        with ret \<open>o1 \<noteq> Returned\<close> show False by simp
      qed
      note R = triangle_step_Returned[OF st[unfolded o1]]
      let ?len = "length (indices m)"
      have i1: "(i + 1) mod 2 ^ 32 = i + 1" using True len by (intro mod_less) linarith
      have l1: "i + 1 < ?len" using R(2) unfolding i1 .
      have i2: "(i + 2) mod 2 ^ 32 = i + 2" using l1 len by (intro mod_less) linarith
      have l2: "i + 2 < ?len" using R(3) unfolding i2 .
      have i3: "(i + 3) mod 2 ^ 32 = i + 3" using l2 len by (intro mod_less) linarith
      have "loop ((i + 3) mod 2 ^ 32) m1 = Some y" using eq True st o1 by (simp add: Let_def)
      then have rec: "loop (i + 3) m1 = Some y" unfolding i3 .
      have idx: "indices m1 = indices m" "glm_vertices m1 = glm_vertices m"
        using f1 by (simp_all add: frame_def)
      have len1: "length (indices m1) < 2 ^ 32" using len unfolding idx .
      note IH' = IH[OF rec, rule_format, OF len1 ret, unfolded idx]
      note IH1 = IH'[THEN conjunct1]
      note IH2 = IH'[THEN conjunct2, THEN conjunct1, rule_format]
      note IH3 = IH'[THEN conjunct2, THEN conjunct2, rule_format]
      note dr = drop3[OF l2]
      let ?n = "face_normal (glm_vertices m) (indices m ! i) (indices m ! (i+1)) (indices m ! (i + 2))"
      have m1: "m1 = m\<lparr>glm_normals := (glm_normals m)
              [unat (indices m ! i) := ?n, unat (indices m ! (i+1)) := ?n, unat (indices m ! (i+2)) := ?n]\<rparr>"
        using R(7) unfolding i1 i2 update3_swap .
      have A: "fst y = m\<lparr>glm_normals := derive_normals (glm_vertices m) (drop i (indices m)) (glm_normals m)\<rparr>"
      proof -
        have "derive_normals (glm_vertices m) (drop i (indices m)) (glm_normals m)
            = derive_normals (glm_vertices m) (drop (i + 3) (indices m)) (glm_normals m1)"
          unfolding dr by (subst m1) simp
        moreover have "m1\<lparr>glm_normals := ns\<rparr> = m\<lparr>glm_normals := ns\<rparr>" for ns
          by (subst m1) simp
        ultimately show ?thesis using IH1 by simp
      qed
      have B: "\<forall>k. i \<le> k \<and> k < ?len \<longrightarrow> unat (indices m ! k) < length (glm_vertices m)"
      proof (intro allI impI)
        fix k assume k: "i \<le> k \<and> k < ?len"
        consider "k = i" | "k = i + 1" | "k = i + 2" | "i + 3 \<le> k" using k by linarith
        then show "unat (indices m ! k) < length (glm_vertices m)"
        proof cases
          case 4 then show ?thesis using IH2[of k] k by simp
        next
          case 1 then show ?thesis using R(4) by simp
        next
          case 2 then show ?thesis using R(5) unfolding i1 by simp
        next
          case 3 then show ?thesis using R(6) unfolding i2 by simp
        qed
      qed
      have C: "3 dvd (?len - i)"
      proof -
        have "i + 3 \<le> ?len" using l2 by linarith
        then have "3 dvd (?len - (i + 3))" by (rule IH3)
        then show ?thesis using l2 by presburger
      qed
      from A B C show ?thesis by simp
    qed
  qed
qed

section \<open>The reading loop and the copy to the flat buffers\<close>

lemma process_line_cases:
  "(take 2 line = ''v '' \<and> (\<exists>x y z. process_line u line m = m\<lparr>glm_vertices := glm_vertices m @ [vec3 x y z]\<rparr>))
   \<or> (take 2 line \<noteq> ''v '' \<and> take 2 line = ''f '' \<and> (\<exists>a b c. process_line u line m = m\<lparr>indices := indices m @ [a, b, c]\<rparr>))
   \<or> (take 2 line \<noteq> ''v '' \<and> take 2 line \<noteq> ''f '' \<and> process_line u line m = m)"
  unfolding process_line_def by (auto simp: Let_def split: prod.splits)

lemma process_line_keeps:
  "vertices (process_line u line m) = vertices m"
  "normals (process_line u line m) = normals m"
  "glm_normals (process_line u line m) = glm_normals m"
  "length (indices (process_line u line m)) mod 3 = length (indices m) mod 3"
  using process_line_cases[of line u m] by auto

lemma read_loop_keeps:
  "vertices (read_loop u k inp m) = vertices m \<and>
   normals (read_loop u k inp m) = normals m \<and>
   glm_normals (read_loop u k inp m) = glm_normals m \<and>
   length (indices (read_loop u k inp m)) mod 3 = length (indices m) mod 3"
proof (induction u k inp m rule: read_loop.induct)
  case (1 u k inp m)
  obtain line r e where g: "getline inp = (line, r, e)" by (cases "getline inp") auto
  show ?case
  proof (cases e)
    case True
    have "read_loop u k inp m = process_line (u k) line m"
      using g True by (subst read_loop.simps) simp
    then show ?thesis by (simp add: process_line_keeps)
  next
    case False
    note IH = 1[OF g[symmetric] refl False]
    have "read_loop u k inp m = read_loop u (Suc k) r (process_line (u k) line m)"
      using g False by (subst read_loop.simps) simp
    then show ?thesis using IH by (simp add: process_line_keeps)
  qed
qed

lemma reset_Mesh:
  "m0\<lparr>vertices := resize 0 a (vertices m0), normals := resize 0 b (normals m0),
      indices := resize 0 c (indices m0), glm_vertices := resize 0 d (glm_vertices m0),
      glm_normals := resize 0 e (glm_normals m0)\<rparr> = Mesh_empty"
  by (simp add: resize_def Mesh_empty_def)

lemma push_vec3s_append: "push_vec3s vs out = out @ push_vec3s vs []"
proof (induction vs arbitrary: out)
  case Nil
  show ?case by simp
next
  case (Cons v vs)
  show ?case using Cons[of "out @ [vx v, vy v, vz v]"] Cons[of "[vx v, vy v, vz v]"] by simp
qed

lemma push_vec3s_Cons: "push_vec3s (v # vs) [] = vx v # vy v # vz v # push_vec3s vs []"
  using push_vec3s_append[of vs "[vx v, vy v, vz v]"] by simp

lemma length_push_vec3s: "length (push_vec3s vs []) = 3 * length vs"
  by (induction vs) (simp_all add: push_vec3s_Cons del: push_vec3s.simps(2))

lemma vec3s_of_push: "vec3s_of (push_vec3s vs []) = vs"
  by (induction vs) (simp_all add: push_vec3s_Cons del: push_vec3s.simps(2))

section \<open>The outcomes of a load\<close>

lemma parsed_fields:
  "vertices (parsed u src) = []" "normals (parsed u src) = []"
  "indices (parsed u src) = indices (read_loop u 0 src Mesh_empty)"
  "glm_vertices (parsed u src) = glm_vertices (read_loop u 0 src Mesh_empty)"
  "3 dvd length (indices (parsed u src))"
  using read_loop_keeps[of u 0 src Mesh_empty]
  by (simp_all add: parsed_def Mesh_empty_def dvd_eq_mod_eq_0)

lemma load_unopened:
  assumes "fs p = None"
  shows "loadFromObjFile fs u p m0 =
    Some (Mesh_empty, Threw (ShaderException (''Unable to open .obj file: '' @ p @ [CHR 0x0A])))"
  unfolding loadFromObjFile_def reset_Mesh Let_def using assms by simp

lemma load_opened:
  assumes "fs p = Some src"
  shows "loadFromObjFile fs u p m0 =
    (case normals_loop 0 (parsed u src) of
       None \<Rightarrow> None
     | Some (m, Threw e) \<Rightarrow> Some (m, Threw e)
     | Some (m, Returned) \<Rightarrow>
         Some (m\<lparr>vertices := push_vec3s (glm_vertices m) (vertices m),
                 normals := push_vec3s (glm_normals m) (normals m),
                 glm_vertices := [], glm_normals := []\<rparr>, Returned))"
proof -
  have r: "glm_normals (read_loop u 0 src Mesh_empty) = []"
    using read_loop_keeps[of u 0 src Mesh_empty] by (simp add: Mesh_empty_def)
  show ?thesis
    unfolding loadFromObjFile_def reset_Mesh Let_def parsed_def using assms
    by (simp add: resize_def r split: option.splits prod.splits outcome.splits)
qed

lemma load_Returned:
  assumes "loadFromObjFile fs u p m0 = Some (m', Returned)"
  shows "\<exists>src. fs p = Some src
    \<and> m' = \<lparr>vertices = push_vec3s (glm_vertices (parsed u src)) [],
            normals = push_vec3s (derive_normals (glm_vertices (parsed u src))
                         (indices (parsed u src))
                         (replicate (length (glm_vertices (parsed u src)))
                            (vec3 (Finite 0) (Finite 0) (Finite 0)))) [],
            indices = indices (parsed u src), glm_vertices = [], glm_normals = []\<rparr>
    \<and> length (indices (parsed u src)) < 2 ^ 32
    \<and> (\<forall>k < length (indices (parsed u src)).
          unat (indices (parsed u src) ! k) < length (glm_vertices (parsed u src)))"
proof (cases "fs p")
  case None
  with assms load_unopened[of fs p u m0] show ?thesis by simp
next
  case (Some src)
  let ?m = "parsed u src"
  from assms load_opened[of fs p src u m0] Some
  obtain m2 where nl: "normals_loop 0 ?m = Some (m2, Returned)"
    and m': "m' = m2\<lparr>vertices := push_vec3s (glm_vertices m2) (vertices m2),
                 normals := push_vec3s (glm_normals m2) (normals m2),
                 glm_vertices := [], glm_normals := []\<rparr>"
    by (auto split: option.splits prod.splits outcome.splits)
  have len: "length (indices ?m) < 2 ^ 32"
  proof (rule ccontr)
    assume "\<not> length (indices ?m) < 2 ^ 32"
    then have "2 ^ 32 \<le> length (indices ?m)" by simp
    with normals_loop_wrap[OF nl] show False by simp
  qed
  from normals_loop_spec[OF nl] len
  have m2: "m2 = ?m\<lparr>glm_normals := derive_normals (glm_vertices ?m) (indices ?m) (glm_normals ?m)\<rparr>"
    and rng: "\<forall>k. k < length (indices ?m) \<longrightarrow> unat (indices ?m ! k) < length (glm_vertices ?m)"
    by simp_all
  have gn: "glm_normals ?m = replicate (length (glm_vertices ?m)) (vec3 (Finite 0) (Finite 0) (Finite 0))"
    by (simp add: parsed_def)
  have fields: "vertices m2 = []" "normals m2 = []" "indices m2 = indices ?m"
    "glm_vertices m2 = glm_vertices ?m"
    "glm_normals m2 = derive_normals (glm_vertices ?m) (indices ?m)
        (replicate (length (glm_vertices ?m)) (vec3 (Finite 0) (Finite 0) (Finite 0)))"
    by (subst m2, simp add: parsed_fields gn)+
  have "m' = \<lparr>vertices = push_vec3s (glm_vertices ?m) [],
            normals = push_vec3s (derive_normals (glm_vertices ?m) (indices ?m)
                         (replicate (length (glm_vertices ?m)) (vec3 (Finite 0) (Finite 0) (Finite 0)))) [],
            indices = indices ?m, glm_vertices = [], glm_normals = []\<rparr>"
    unfolding m' using fields by (cases m2) simp
  with Some len rng show ?thesis by blast
qed

lemma load_Threw:
  assumes "loadFromObjFile fs u p m0 = Some (m', Threw e)"
  shows "vertices m' = [] \<and> normals m' = [] \<and>
    (fs p = None \<and> m' = Mesh_empty
       \<and> e = ShaderException (''Unable to open .obj file: '' @ p @ [CHR 0x0A])
     \<or> (\<exists>src. fs p = Some src \<and> e = out_of_range
          \<and> indices m' = indices (parsed u src) \<and> indices m' \<noteq> []))"
proof (cases "fs p")
  case None
  with assms load_unopened[of fs p u m0] show ?thesis by (auto simp: Mesh_empty_def)
next
  case (Some src)
  let ?m = "parsed u src"
  from assms load_opened[of fs p src u m0] Some
  have nl: "normals_loop 0 ?m = Some (m', Threw e)"
    by (auto split: option.splits prod.splits outcome.splits)
  from normals_loop_frame[OF nl] have f: "frame ?m m'" and e: "e = out_of_range" "indices ?m \<noteq> []"
    by simp_all
  from f have "vertices m' = []" "normals m' = []" "indices m' = indices ?m"
    by (simp_all add: frame_def parsed_fields)
  with Some e show ?thesis by simp
qed

section \<open>Evaluation\<close>

text \<open>
  Concrete loads are evaluated by rewriting with the definitions; the congruence rules
  make the simplifier evaluate an argument before it enters a \<open>let\<close> or \<open>case\<close>.
\<close>

lemmas call_by_value = let_weak_cong prod.case_cong_weak sum.case_cong_weak option.case_cong_weak

lemmas stream_defs = extract_ushort_def extract_float_def sentry_def istringstream_of_def
  isspace_def isdigit_def is_sign_def digit_val_def float_field_val_def

lemmas load_defs = loadFromObjFile_def resize_def read_loop.simps process_line_def
  normals_loop.simps triangle_step_def vector_at_def vector_at_assign_def
  normalize_def cross_def vec3_sub_def only_file_def no_files_def zeros_def Let_def

lemma load_triangle_obj:
  "loadFromObjFile (only_file triangle_obj) u p m0 = Some (triangle_mesh, Returned)"
  by (simp add: triangle_obj_def triangle_mesh_def load_defs stream_defs cong: call_by_value)

lemma load_shared_obj:
  "loadFromObjFile (only_file shared_obj) u p m0 = Some (shared_mesh, Returned)"
  by (simp add: shared_obj_def shared_mesh_def load_defs stream_defs cong: call_by_value)

lemma load_triangle_no_newline:
  "loadFromObjFile (only_file ''v 0 0 0\<newline>v 1 0 0\<newline>v 0 1 0\<newline>f 1 2 3'') u p m0
     = Some (triangle_mesh, Returned)"
  by (simp add: triangle_mesh_def load_defs stream_defs cong: call_by_value)

lemma ushort_minus_one: "(- 1 :: ushort) = 65535"
  by simp

lemma unat_ushort_max: "unat (65535 :: ushort) = 65535"
  by simp

lemma load_bad_face_obj:
  "loadFromObjFile (only_file bad_face_obj) zeros p m0 = Some (bad_face_mesh, Threw out_of_range)"
  by (simp add: bad_face_obj_def bad_face_mesh_def load_defs stream_defs ushort_minus_one cong: call_by_value)



lemma float_round_0: "float_round 0 = 0"
  by (simp add: float_round_def float_round_mag_def rne_def)

lemma counts_empty:
  "vertices m = [] \<Longrightarrow> getNumVertices m = 0 \<and> getNumVertexBytes m = 0"
  "normals m = [] \<Longrightarrow> getNumNormals m = 0 \<and> getNumNormalBytes m = 0"
  "indices m = [] \<Longrightarrow> getNumIndices m = 0 \<and> getNumIndexBytes m = 0"
  by (simp_all add: getNumVertices_def getNumVertexBytes_def getNumNormals_def
      getNumNormalBytes_def getNumIndices_def getNumIndexBytes_def float_of_size_def float_round_0)

lemma length_derive_normals: "length (derive_normals pos idx acc) = length acc"
  by (induction pos idx acc rule: derive_normals.induct) simp_all

section \<open>The normal derivation of the specification\<close>

lemma not_3_dvd_2: "\<not> (3::nat) dvd Suc (Suc 0)"
  by presburger

lemma derive_normals_append:
  "3 dvd length pre \<Longrightarrow>
   derive_normals pos (pre @ ts) acc = derive_normals pos ts (derive_normals pos pre acc)"
proof (induction pos pre acc rule: derive_normals.induct)
  case (1 pos a b c ts' acc)
  from 1(2) have "3 dvd length ts'" by simp presburger
  with 1(1) show ?case by simp
qed (simp_all add: not_3_dvd_2)

lemma derive_normals_untouched:
  "v \<notin> set idx \<Longrightarrow> derive_normals pos idx acc ! unat v = acc ! unat v"
proof (induction pos idx acc rule: derive_normals.induct)
  case (1 pos a b c ts acc)
  from 1(2) have ne: "unat a \<noteq> unat v" "unat b \<noteq> unat v" "unat c \<noteq> unat v" and r: "v \<notin> set ts"
    by (auto simp: word_unat_eq_iff)
  from 1(1)[OF r] ne show ?case by simp
qed simp_all


lemma update3_nth:
  assumes "k < length xs" and "k = a \<or> k = b \<or> k = c"
  shows "xs[a := v, b := v, c := v] ! k = v"
proof (cases "k = c")
  case True
  then show ?thesis using assms(1) by simp
next
  case False
  then show ?thesis using assms by (cases "k = b") auto
qed

lemma derive_normals_last:
  assumes "3 dvd length pre" and "v = a \<or> v = b \<or> v = c" and "v \<notin> set post"
    and "unat v < length acc"
  shows "derive_normals pos (pre @ a # b # c # post) acc ! unat v = face_normal pos a b c"
proof -
  let ?acc = "derive_normals pos pre acc"
  let ?n = "face_normal pos a b c"
  have "derive_normals pos (pre @ a # b # c # post) acc
      = derive_normals pos post (?acc[unat a := ?n, unat b := ?n, unat c := ?n])"
    using derive_normals_append[OF assms(1)] by simp
  then have "derive_normals pos (pre @ a # b # c # post) acc ! unat v
      = ?acc[unat a := ?n, unat b := ?n, unat c := ?n] ! unat v"
    using derive_normals_untouched[OF assms(3)] by simp
  also have "\<dots> = ?n"
    using assms(2,4) by (intro update3_nth) (auto simp: length_derive_normals)
  finally show ?thesis .
qed

section \<open>Lines that do not parse\<close>






section \<open>The claims\<close>


text \<open>
  Claim C6. When the file cannot be opened the load throws the exception whose message is
  \<^verbatim>\<open>Unable to open .obj file: \<close> followed by the path and a newline, and it leaves the three
  buffers empty: every element count and every byte count is zero.
\<close>

theorem unopened_file_IoError:
  assumes "fs p = None"
  shows "\<exists>m'. loadFromObjFile fs u p m0 =
           Some (m', Threw (ShaderException (''Unable to open .obj file: '' @ p @ ''\<newline>'')))
         \<and> vertices m' = [] \<and> normals m' = [] \<and> indices m' = []
         \<and> getNumVertices m' = 0 \<and> getNumNormals m' = 0 \<and> getNumIndices m' = 0
         \<and> getNumVertexBytes m' = 0 \<and> getNumNormalBytes m' = 0 \<and> getNumIndexBytes m' = 0"
proof -
  have e: "vertices Mesh_empty = []" "normals Mesh_empty = []" "indices Mesh_empty = []"
    by (simp_all add: Mesh_empty_def)
  show ?thesis
    using load_unopened[of fs p u m0] assms counts_empty[of Mesh_empty] e by simp
qed

theorem unopened_file_IoError_witness:
  "no_files ''missing.obj'' = None \<and>
   (\<exists>m'. loadFromObjFile no_files zeros ''missing.obj'' triangle_mesh =
           Some (m', Threw (ShaderException (''Unable to open .obj file: '' @ ''missing.obj'' @ ''\<newline>'')))
         \<and> vertices m' = [] \<and> normals m' = [] \<and> indices m' = []
         \<and> getNumVertices m' = 0 \<and> getNumNormals m' = 0 \<and> getNumIndices m' = 0
         \<and> getNumVertexBytes m' = 0 \<and> getNumNormalBytes m' = 0 \<and> getNumIndexBytes m' = 0)"
proof -
  have h: "no_files ''missing.obj'' = None" by (simp add: no_files_def)
  from unopened_file_IoError[of no_files "''missing.obj''" zeros triangle_mesh] h
  show ?thesis by blast
qed

text \<open>
  Claim C2. After a load that returns, \<open>normals\<close> and \<open>vertices\<close> have the same length,
  \<^verbatim>\<open>getNumNormals\<close> equals \<^verbatim>\<open>getNumVertices\<close>, and the number of indices is a multiple
  of 3.
\<close>

theorem loaded_sizes:
  assumes "loadFromObjFile fs u p m0 = Some (m', Returned)"
  shows "length (normals m') = length (vertices m') \<and> getNumNormals m' = getNumVertices m'
       \<and> length (indices m') mod 3 = 0 \<and> getNumIndices m' mod 3 = 0"
proof -
  from load_Returned[OF assms] obtain src where
    m': "m' = \<lparr>vertices = push_vec3s (glm_vertices (parsed u src)) [],
            normals = push_vec3s (derive_normals (glm_vertices (parsed u src))
                         (indices (parsed u src))
                         (replicate (length (glm_vertices (parsed u src)))
                            (vec3 (Finite 0) (Finite 0) (Finite 0)))) [],
            indices = indices (parsed u src), glm_vertices = [], glm_normals = []\<rparr>"
    by blast
  have l: "length (normals m') = length (vertices m')"
    by (subst m')+ (simp add: length_push_vec3s length_derive_normals)
  have i: "length (indices m') mod 3 = 0"
    using parsed_fields(5)[of u src] by (subst m') (simp add: dvd_eq_mod_eq_0)
  show ?thesis using l i by (simp add: getNumNormals_def getNumVertices_def getNumIndices_def)
qed

theorem loaded_sizes_witness:
  "loadFromObjFile (only_file triangle_obj) zeros ''triangle.obj'' Mesh_empty = Some (triangle_mesh, Returned)
   \<and> length (normals triangle_mesh) = length (vertices triangle_mesh)
   \<and> getNumNormals triangle_mesh = getNumVertices triangle_mesh
   \<and> length (indices triangle_mesh) mod 3 = 0 \<and> getNumIndices triangle_mesh mod 3 = 0"
  using loaded_sizes[OF load_triangle_obj[of zeros "''triangle.obj''" Mesh_empty]]
    load_triangle_obj[of zeros "''triangle.obj''" Mesh_empty] by blast

text \<open>
  Claim C3. After a load that returns, every stored index is less than the number of parsed
  positions (a third of the length of the flat position buffer).
\<close>

theorem loaded_indices_in_range:
  assumes "loadFromObjFile fs u p m0 = Some (m', Returned)"
  shows "\<forall>x \<in> set (indices m'). unat x < length (vertices m') div 3"
proof -
  from load_Returned[OF assms] obtain src where
    m': "m' = \<lparr>vertices = push_vec3s (glm_vertices (parsed u src)) [],
            normals = push_vec3s (derive_normals (glm_vertices (parsed u src))
                         (indices (parsed u src))
                         (replicate (length (glm_vertices (parsed u src)))
                            (vec3 (Finite 0) (Finite 0) (Finite 0)))) [],
            indices = indices (parsed u src), glm_vertices = [], glm_normals = []\<rparr>"
    and rng: "\<forall>k < length (indices (parsed u src)).
          unat (indices (parsed u src) ! k) < length (glm_vertices (parsed u src))"
    by blast
  have v: "length (vertices m') div 3 = length (glm_vertices (parsed u src))"
    by (subst m') (simp add: length_push_vec3s)
  have i: "indices m' = indices (parsed u src)" by (subst m') simp
  show ?thesis unfolding v i using rng by (auto simp: in_set_conv_nth)
qed

theorem loaded_indices_in_range_witness:
  "loadFromObjFile (only_file triangle_obj) zeros ''triangle.obj'' Mesh_empty = Some (triangle_mesh, Returned)
   \<and> unat (indices triangle_mesh ! 2) < length (vertices triangle_mesh) div 3"
proof -
  note l = load_triangle_obj[of zeros "''triangle.obj''" Mesh_empty]
  have "indices triangle_mesh ! 2 \<in> set (indices triangle_mesh)"
    by (simp add: triangle_mesh_def)
  with loaded_indices_in_range[OF l] l show ?thesis by blast
qed

text \<open>
  Claim C1. After a load that returns, the normals are those of the derivation the
  specification describes, run over the loaded positions and indices from an
  accumulator of zero vectors: each index triple \<open>(a, b, c)\<close> in turn assigns
  \<open>normalize (cross (pos[b] - pos[a]) (pos[c] - pos[a]))\<close> to the slots \<open>a\<close>, \<open>b\<close> and
  \<open>c\<close>. So a vertex has the normal of the last triple that names it, not an average.
\<close>

theorem normals_last_triangle_wins:
  assumes "loadFromObjFile fs u p m0 = Some (m', Returned)"
  shows "vec3s_of (normals m') =
           derive_normals (vec3s_of (vertices m')) (indices m')
             (replicate (length (vec3s_of (vertices m'))) (vec3 (Finite 0) (Finite 0) (Finite 0)))
       \<and> (\<forall>pre a b c post v.
             indices m' = pre @ a # b # c # post \<and> 3 dvd length pre
               \<and> (v = a \<or> v = b \<or> v = c) \<and> v \<notin> set post
             \<longrightarrow> vec3s_of (normals m') ! unat v = face_normal (vec3s_of (vertices m')) a b c)"
proof -
  from load_Returned[OF assms] obtain src where
    m': "m' = \<lparr>vertices = push_vec3s (glm_vertices (parsed u src)) [],
            normals = push_vec3s (derive_normals (glm_vertices (parsed u src))
                         (indices (parsed u src))
                         (replicate (length (glm_vertices (parsed u src)))
                            (vec3 (Finite 0) (Finite 0) (Finite 0)))) [],
            indices = indices (parsed u src), glm_vertices = [], glm_normals = []\<rparr>"
    and rng: "\<forall>k < length (indices (parsed u src)).
          unat (indices (parsed u src) ! k) < length (glm_vertices (parsed u src))"
    by blast
  let ?P = "glm_vertices (parsed u src)" and ?I = "indices (parsed u src)"
  let ?Z = "replicate (length ?P) (vec3 (Finite 0) (Finite 0) (Finite 0))"
  have v: "vec3s_of (vertices m') = ?P" by (subst m') (simp add: vec3s_of_push)
  have n: "vec3s_of (normals m') = derive_normals ?P ?I ?Z" by (subst m') (simp add: vec3s_of_push)
  have i: "indices m' = ?I" by (subst m') simp
  have first: "vec3s_of (normals m') =
           derive_normals (vec3s_of (vertices m')) (indices m')
             (replicate (length (vec3s_of (vertices m'))) (vec3 (Finite 0) (Finite 0) (Finite 0)))"
    unfolding v i n ..
  have second: "vec3s_of (normals m') ! unat v = face_normal (vec3s_of (vertices m')) a b c"
    if h: "indices m' = pre @ a # b # c # post" "3 dvd length pre"
      "v = a \<or> v = b \<or> v = c" "v \<notin> set post" for pre a b c post v
  proof -
    have "v \<in> set ?I" using h(1,3) unfolding i by auto
    then have "unat v < length ?P" using rng by (auto simp: in_set_conv_nth)
    then have "unat v < length ?Z" by simp
    from derive_normals_last[OF h(2) h(3) h(4) this, of ?P]
    show ?thesis unfolding v n using h(1) unfolding i by simp
  qed
  from first second show ?thesis by blast
qed

theorem normals_last_triangle_wins_witness:
  "loadFromObjFile (only_file shared_obj) zeros ''shared.obj'' Mesh_empty = Some (shared_mesh, Returned)
   \<and> indices shared_mesh = [0, 1, 2] @ 0 # 2 # 3 # [] \<and> 3 dvd length [0, 1, 2 :: ushort]
   \<and> (0 :: ushort) \<notin> set []
   \<and> vec3s_of (normals shared_mesh) ! unat (0 :: ushort)
        = face_normal (vec3s_of (vertices shared_mesh)) 0 2 3
   \<and> face_normal (vec3s_of (vertices shared_mesh)) 0 2 3 = vec3 (Finite 1) (Finite 0) (Finite 0)
   \<and> face_normal (vec3s_of (vertices shared_mesh)) 0 1 2 = vec3 (Finite 0) (Finite 0) (Finite 1)"
proof -
  note l = load_shared_obj[of zeros "''shared.obj''" Mesh_empty]
  have i: "indices shared_mesh = [0, 1, 2] @ 0 # 2 # 3 # []" by (simp add: shared_mesh_def)
  have d: "3 dvd length [0, 1, 2 :: ushort]" by (simp add: numeral_3_eq_3)
  have f: "face_normal (vec3s_of (vertices shared_mesh)) 0 2 3 = vec3 (Finite 1) (Finite 0) (Finite 0)"
    "face_normal (vec3s_of (vertices shared_mesh)) 0 1 2 = vec3 (Finite 0) (Finite 0) (Finite 1)"
    by (simp_all add: shared_mesh_def face_normal_def normalize_def cross_def vec3_sub_def)
  from normals_last_triangle_wins[OF l, THEN conjunct2, rule_format, of "[0, 1, 2]" 0 2 3 "[]" 0] i d
  have "vec3s_of (normals shared_mesh) ! unat (0 :: ushort)
        = face_normal (vec3s_of (vertices shared_mesh)) 0 2 3" by simp
  with l i d f show ?thesis by simp
qed

text \<open>
  Claim C7. The file with the lines \<^verbatim>\<open>v 0 0 0\<close>, \<^verbatim>\<open>v 1 0 0\<close>, \<^verbatim>\<open>v 0 1 0\<close>, \<^verbatim>\<open>f 1 2 3\<close>
  (with or without a final newline) loads to exactly three positions, three normals
  \<open>(0, 0, 1)\<close> and the indices \<open>[0, 1, 2]\<close>.
\<close>

theorem single_triangle_file:
  "loadFromObjFile (only_file ''v 0 0 0\<newline>v 1 0 0\<newline>v 0 1 0\<newline>f 1 2 3\<newline>'') u p m0
     = Some (triangle_mesh, Returned)
   \<and> loadFromObjFile (only_file ''v 0 0 0\<newline>v 1 0 0\<newline>v 0 1 0\<newline>f 1 2 3'') u p m0
     = Some (triangle_mesh, Returned)
   \<and> vec3s_of (vertices triangle_mesh) =
       [vec3 (Finite 0) (Finite 0) (Finite 0), vec3 (Finite 1) (Finite 0) (Finite 0),
        vec3 (Finite 0) (Finite 1) (Finite 0)]
   \<and> vec3s_of (normals triangle_mesh) =
       [vec3 (Finite 0) (Finite 0) (Finite 1), vec3 (Finite 0) (Finite 0) (Finite 1),
        vec3 (Finite 0) (Finite 0) (Finite 1)]
   \<and> indices triangle_mesh = [0, 1, 2]"
  using load_triangle_obj[of u p m0] load_triangle_no_newline[of u p m0]
  by (simp add: triangle_obj_def triangle_mesh_def)

text \<open>
  Claim C4, as stated, fails. The file \<^verbatim>\<open>v 0 0 0\<close>, \<^verbatim>\<open>f x y z\<close> makes the load throw
  \<^verbatim>\<open>std::out_of_range\<close> in the normal derivation, and the mesh then still holds the three
  indices read from the face line.
\<close>

theorem failed_load_keeps_indices:
  "loadFromObjFile (only_file bad_face_obj) zeros ''bad.obj'' Mesh_empty
     = Some (bad_face_mesh, Threw out_of_range)
   \<and> indices bad_face_mesh = [65535, 65535, 65535]
   \<and> getNumIndices bad_face_mesh = 3 \<and> getNumIndexBytes bad_face_mesh = 6"
  using load_bad_face_obj[of "''bad.obj''" Mesh_empty]
  by (simp add: bad_face_mesh_def getNumIndices_def getNumIndexBytes_def)

text \<open>
  Claim C4, amended. After a load that throws, positions and normals are empty and
  their counts are zero. When the file could not be opened the indices are empty too.
  Otherwise the exception is \<^verbatim>\<open>std::out_of_range\<close> from the normal derivation and
  \<open>indices\<close> holds, not empty, every index read from the file.
\<close>

theorem failed_load_state:
  assumes "loadFromObjFile fs u p m0 = Some (m', Threw e)"
  shows "vertices m' = [] \<and> normals m' = []
       \<and> getNumVertices m' = 0 \<and> getNumNormals m' = 0
       \<and> getNumVertexBytes m' = 0 \<and> getNumNormalBytes m' = 0
       \<and> (if fs p = None
           then e = ShaderException (''Unable to open .obj file: '' @ p @ ''\<newline>'')
                \<and> indices m' = [] \<and> getNumIndices m' = 0 \<and> getNumIndexBytes m' = 0
           else e = out_of_range \<and> indices m' \<noteq> []
                \<and> indices m' = indices (read_loop u 0 (the (fs p)) Mesh_empty))"
proof -
  note T = load_Threw[OF assms]
  from T have vn: "vertices m' = []" "normals m' = []" by simp_all
  show ?thesis
  proof (cases "fs p")
    case None
    with T have "m' = Mesh_empty"
      and "e = ShaderException (''Unable to open .obj file: '' @ p @ ''\<newline>'')" by auto
    then show ?thesis using None counts_empty[of Mesh_empty]
      by (simp add: Mesh_empty_def)
  next
    case (Some src)
    with T have "e = out_of_range" "indices m' \<noteq> []" "indices m' = indices (parsed u src)"
      by auto
    then show ?thesis using Some vn counts_empty(1,2)[of m'] by (simp add: parsed_fields)
  qed
qed

theorem failed_load_state_witness:
  "loadFromObjFile (only_file bad_face_obj) zeros ''bad.obj'' Mesh_empty
     = Some (bad_face_mesh, Threw out_of_range)
   \<and> vertices bad_face_mesh = [] \<and> normals bad_face_mesh = []
   \<and> getNumVertices bad_face_mesh = 0 \<and> getNumNormals bad_face_mesh = 0
   \<and> indices bad_face_mesh \<noteq> []"
proof -
  note l = load_bad_face_obj[of "''bad.obj''" Mesh_empty]
  have ne: "only_file bad_face_obj ''bad.obj'' \<noteq> None" by (simp add: only_file_def)
  from failed_load_state[OF l] ne l show ?thesis by (auto split: if_splits)
qed




end
